theory Spec2Isabelle
  imports Main "HOL-Library.AList" "HOL-Library.Sublist"
begin

section \<open>Values of the program\<close>

text \<open>
  The hub stores and returns decoded JSON (\<^verbatim>\<open>Dict[str, Any]\<close>). A decoded body is a
  Python value built from \<^verbatim>\<open>None\<close>, booleans, integers, strings, lists and dicts with
  string keys. A dict is an association list: the first pair with a key is the entry,
  and the order of the pairs is the insertion order. Numbers that are not integers are
  outside the model.
\<close>

datatype json =
    JNull
  | JBool bool
  | JInt int
  | JStr string
  | JList "json list"
  | JObj "(string \<times> json) list"

text \<open>
  Every exception the modelled code can raise; \<open>Exception\<close> stands for whatever a
  listener raises.
\<close>

datatype error =
    InvalidConfig
  | InvalidToken
  | RequestError int
  | InvalidAttribute string
  | ConnectionError
  | ClientError
  | KeyError string
  | TypeError
  | AttributeError string
  | ValueError
  | Exception string

text \<open>Python truthiness (\<^verbatim>\<open>if x:\<close>).\<close>

fun truthy :: "json \<Rightarrow> bool" where
  "truthy JNull = False"
| "truthy (JBool b) = b"
| "truthy (JInt i) = (i \<noteq> 0)"
| "truthy (JStr s) = (s \<noteq> [])"
| "truthy (JList xs) = (xs \<noteq> [])"
| "truthy (JObj kvs) = (kvs \<noteq> [])"

text \<open>
  \<^verbatim>\<open>k in x\<close> for a string \<open>k\<close>: key membership on a dict, element membership on a list
  (a string equals only an equal string), substring on a string, \<^verbatim>\<open>TypeError\<close> on
  anything else.
\<close>

fun py_in :: "string \<Rightarrow> json \<Rightarrow> error + bool" where
  "py_in k (JObj kvs) = Inr (k \<in> set (map fst kvs))"
| "py_in k (JList xs) = Inr (JStr k \<in> set xs)"
| "py_in k (JStr s) = Inr (sublist k s)"
| "py_in k JNull = Inl TypeError"
| "py_in k (JBool b) = Inl TypeError"
| "py_in k (JInt i) = Inl TypeError"

text \<open>
  \<^verbatim>\<open>x[k]\<close> for a string \<open>k\<close>: the entry of a dict or \<^verbatim>\<open>KeyError\<close>; a list, a string
  and every other value raise \<^verbatim>\<open>TypeError\<close> on a string index.
\<close>

fun subscript :: "json \<Rightarrow> string \<Rightarrow> error + json" where
  "subscript (JObj kvs) k = (case map_of kvs k of None \<Rightarrow> Inl (KeyError k) | Some v \<Rightarrow> Inr v)"
| "subscript JNull k = Inl TypeError"
| "subscript (JBool b) k = Inl TypeError"
| "subscript (JInt i) k = Inl TypeError"
| "subscript (JStr s) k = Inl TypeError"
| "subscript (JList xs) k = Inl TypeError"

text \<open>
  \<^verbatim>\<open>x[k] = v\<close> for a string \<open>k\<close>: a dict entry is overwritten in place or appended.
\<close>

fun setitem :: "json \<Rightarrow> string \<Rightarrow> json \<Rightarrow> error + json" where
  "setitem (JObj kvs) k v = Inr (JObj (AList.update k v kvs))"
| "setitem JNull k v = Inl TypeError"
| "setitem (JBool b) k v = Inl TypeError"
| "setitem (JInt i) k v = Inl TypeError"
| "setitem (JStr s) k v = Inl TypeError"
| "setitem (JList xs) k v = Inl TypeError"

text \<open>
  \<^verbatim>\<open>for a in x\<close>: the elements of a list, the keys of a dict, the characters of a
  string; nothing else is iterable.
\<close>

fun py_iter :: "json \<Rightarrow> error + json list" where
  "py_iter (JList xs) = Inr xs"
| "py_iter (JObj kvs) = Inr (map (\<lambda>kv. JStr (fst kv)) kvs)"
| "py_iter (JStr s) = Inr (map (\<lambda>c. JStr [c]) s)"
| "py_iter JNull = Inl TypeError"
| "py_iter (JBool b) = Inl TypeError"
| "py_iter (JInt i) = Inl TypeError"

section \<open>The hub\<close>

text \<open>
  A listener is a callback without arguments and without a result
  (\<^verbatim>\<open>Listener = Callable[[], None]\<close>). Here it is a handle with a number and with what
  a call of it does: it returns (\<open>None\<close>) or it raises an exception. Every call is
  recorded in the field \<open>invoked\<close>. Listeners are taken not to call back into the hub.
\<close>

datatype listener = Listener (lid: nat) (raises: "error option")

text \<open>
  The event server comes from the module \<^verbatim>\<open>server\<close>. Of it the hub uses \<^verbatim>\<open>start()\<close>,
  \<^verbatim>\<open>stop()\<close> and \<^verbatim>\<open>url\<close>.
\<close>

record server =
  server_url :: string
  running :: bool

text \<open>
  An instance attribute that \<^verbatim>\<open>__init__\<close> does not assign does not exist until some
  method assigns it; reading it before raises \<^verbatim>\<open>AttributeError\<close>.
\<close>

datatype 'a attr = Unset | Assigned 'a

text \<open>An outgoing request of \<^verbatim>\<open>aiohttp.request\<close>, and what comes back.\<close>

record request =
  rmethod :: string
  rurl :: string
  params :: "(string \<times> string) list"

datatype outcome =
    ClientErr
  | Resp int json

text \<open>
  The fields of \<^verbatim>\<open>Hub\<close>. The last two are not attributes of the class: \<open>requests\<close>
  lists the requests sent so far, \<open>invoked\<close> the listeners called so far, both oldest
  first.
\<close>

record hub =
  scheme :: string
  host :: string
  app_id :: string
  token :: string
  api_url :: string
  address :: string
  port :: int
  mac :: "string option"
  started :: bool
  devices :: "(string \<times> json) list"
  info :: "(string \<times> string) list"
  listeners :: "(string \<times> listener list) list"
  server :: "server attr"
  requests :: "request list"
  invoked :: "listener list"

section \<open>The request layer\<close>

text \<open>
  The body of the \<^verbatim>\<open>async with\<close> block of \<^verbatim>\<open>_api_request\<close>: what a response with
  status \<open>status\<close> and decoded body \<open>body\<close> becomes. The body is decoded only when the
  status is below 400; decoding is taken to succeed.
\<close>

definition api_response :: "int \<Rightarrow> json \<Rightarrow> error + json" where
  "api_response status body =
     (if status \<ge> 400 then
        (if status = 401 then Inl InvalidToken else Inl (RequestError status))
      else
        (case py_in ''error'' body of
           Inl e \<Rightarrow> Inl e
         | Inr False \<Rightarrow> Inr body
         | Inr True \<Rightarrow>
             (case subscript body ''error'' of
                Inl e \<Rightarrow> Inl e
              | Inr v \<Rightarrow> if truthy v then Inl (RequestError status) else Inr body)))"

text \<open>
  \<^verbatim>\<open>_api_request(path, method)\<close>. The network is a parameter \<open>net\<close> that answers each
  request; a transport failure of \<^verbatim>\<open>aiohttp\<close> is \<open>ClientErr\<close>.
\<close>

definition api_request ::
  "(request \<Rightarrow> outcome) \<Rightarrow> string \<Rightarrow> string \<Rightarrow> hub \<Rightarrow> (error + json) \<times> hub" where
  "api_request net path method h =
     (let req = \<lparr>rmethod = method, rurl = api_url h @ ''/'' @ path,
                 params = [(''access_token'', token h)]\<rparr>;
          h' = h\<lparr>requests := requests h @ [req]\<rparr>
      in case net req of
           ClientErr \<Rightarrow> (Inl ClientError, h')
         | Resp status body \<Rightarrow> (api_response status body, h'))"

text \<open>
  \<^verbatim>\<open>_load_device(device_id, force_refresh)\<close>: fetch \<^verbatim>\<open>devices/{device_id}\<close> and store
  the decoded body under the id, unless the id is cached and no refresh is forced.
  Storing under a string key cannot fail, so the \<^verbatim>\<open>except\<close> branch is dead.
\<close>

definition load_device ::
  "(request \<Rightarrow> outcome) \<Rightarrow> string \<Rightarrow> bool \<Rightarrow> hub \<Rightarrow> (error + unit) \<times> hub" where
  "load_device net device_id force_refresh h =
     (if force_refresh \<or> device_id \<notin> set (map fst (devices h)) then
        (case api_request net (''devices/'' @ device_id) ''GET'' h of
           (Inl e, h') \<Rightarrow> (Inl e, h')
         | (Inr js, h') \<Rightarrow> (Inr (), h'\<lparr>devices := AList.update device_id js (devices h')\<rparr>))
      else (Inr (), h))"

definition refresh_device ::
  "(request \<Rightarrow> outcome) \<Rightarrow> string \<Rightarrow> hub \<Rightarrow> (error + unit) \<times> hub" where
  "refresh_device net device_id h = load_device net device_id True h"

section \<open>Commands\<close>

text \<open>
  The optional argument of a command, \<^verbatim>\<open>Optional[Union[str, int]]\<close>; \<open>None\<close> is
  Python's \<^verbatim>\<open>None\<close>.
\<close>

datatype arg = ArgStr string | ArgInt int

fun arg_truthy :: "arg \<Rightarrow> bool" where
  "arg_truthy (ArgStr s) = (s \<noteq> [])"
| "arg_truthy (ArgInt i) = (i \<noteq> 0)"

text \<open>Decimal notation of an integer, as an f-string prints it.\<close>

fun str_of_nat :: "nat \<Rightarrow> string" where
  "str_of_nat n =
     (if n < 10 then [''0123456789'' ! n]
      else str_of_nat (n div 10) @ [''0123456789'' ! (n mod 10)])"

declare str_of_nat.simps [simp del]

definition str_of_int :: "int \<Rightarrow> string" where
  "str_of_int i = (if i < 0 then CHR ''-'' # str_of_nat (nat (- i)) else str_of_nat (nat i))"

fun format_arg :: "arg \<Rightarrow> string" where
  "format_arg (ArgStr s) = s"
| "format_arg (ArgInt i) = str_of_int i"

definition send_command ::
  "(request \<Rightarrow> outcome) \<Rightarrow> string \<Rightarrow> string \<Rightarrow> arg option \<Rightarrow> hub \<Rightarrow> (error + json) \<times> hub" where
  "send_command net device_id command arg h =
     (let path = ''devices/'' @ device_id @ ''/'' @ command;
          path' = (case arg of
                     None \<Rightarrow> path
                   | Some a \<Rightarrow> if arg_truthy a then path @ ''/'' @ format_arg a else path)
      in api_request net path' ''GET'' h)"

section \<open>Listeners\<close>

definition add_device_listener :: "string \<Rightarrow> listener \<Rightarrow> hub \<Rightarrow> hub" where
  "add_device_listener device_id l h =
     (let reg = (if device_id \<notin> set (map fst (listeners h))
                 then AList.update device_id [] (listeners h) else listeners h)
      in h\<lparr>listeners :=
            AList.update device_id
              ((case map_of reg device_id of None \<Rightarrow> [] | Some ls \<Rightarrow> ls) @ [l]) reg\<rparr>)"

definition remove_device_listeners :: "string \<Rightarrow> hub \<Rightarrow> hub" where
  "remove_device_listeners device_id h =
     h\<lparr>listeners := AList.update device_id [] (listeners h)\<rparr>"

text \<open>
  The loop \<^verbatim>\<open>for listener in self._listeners[device_id]: listener()\<close>. Nothing catches
  what a listener raises: the loop ends there and the exception leaves the loop.
\<close>

fun call_listeners :: "listener list \<Rightarrow> hub \<Rightarrow> (error + unit) \<times> hub" where
  "call_listeners [] h = (Inr (), h)"
| "call_listeners (l # ls) h =
     (case raises l of
        Some e \<Rightarrow> (Inl e, h\<lparr>invoked := invoked h @ [l]\<rparr>)
      | None \<Rightarrow> call_listeners ls (h\<lparr>invoked := invoked h @ [l]\<rparr>))"

text \<open>
  The listeners of a list that a dispatch calls, and what the dispatch ends with: the
  calls stop with the first listener that raises.
\<close>

definition returns :: "listener \<Rightarrow> bool" where
  "returns l = (raises l = None)"

definition called :: "listener list \<Rightarrow> listener list" where
  "called ls = takeWhile returns ls @ take 1 (dropWhile returns ls)"

text \<open>The listeners registered for a device id, in the order of registration.\<close>

definition registered :: "hub \<Rightarrow> string \<Rightarrow> listener list" where
  "registered h device_id =
     (case map_of (listeners h) device_id of None \<Rightarrow> [] | Some ls \<Rightarrow> ls)"

definition dispatch_result :: "listener list \<Rightarrow> error + unit" where
  "dispatch_result ls =
     (case dropWhile returns ls of
        [] \<Rightarrow> Inr ()
      | l # _ \<Rightarrow> (case raises l of None \<Rightarrow> Inr () | Some e \<Rightarrow> Inl e))"

section \<open>Reading the device cache\<close>

text \<open>
  The three loops over \<^verbatim>\<open>state["attributes"]\<close>. Each reads \<^verbatim>\<open>attr["name"]\<close> of one
  element after the other and stops at the first whose name equals \<open>attr_name\<close>; a
  Python string equals only an equal string.
\<close>

fun has_attr_loop :: "json list \<Rightarrow> string \<Rightarrow> error + bool" where
  "has_attr_loop [] attr_name = Inr False"
| "has_attr_loop (a # as) attr_name =
     (case subscript a ''name'' of
        Inl e \<Rightarrow> Inl e
      | Inr nm \<Rightarrow> if nm = JStr attr_name then Inr True else has_attr_loop as attr_name)"

definition device_has_attribute :: "hub \<Rightarrow> string \<Rightarrow> string \<Rightarrow> error + bool" where
  "device_has_attribute h device_id attr_name =
     (case map_of (devices h) device_id of
        None \<Rightarrow> Inl (KeyError device_id)
      | Some state \<Rightarrow>
          (case subscript state ''attributes'' of
             Inl e \<Rightarrow> Inl e
           | Inr attrs \<Rightarrow>
               (case py_iter attrs of
                  Inl e \<Rightarrow> Inl e
                | Inr xs \<Rightarrow> has_attr_loop xs attr_name)))"

fun get_attr_loop :: "json list \<Rightarrow> string \<Rightarrow> error + json option" where
  "get_attr_loop [] attr_name = Inr None"
| "get_attr_loop (a # as) attr_name =
     (case subscript a ''name'' of
        Inl e \<Rightarrow> Inl e
      | Inr nm \<Rightarrow> if nm = JStr attr_name then Inr (Some a) else get_attr_loop as attr_name)"

definition get_device_attribute :: "hub \<Rightarrow> string \<Rightarrow> string \<Rightarrow> error + json option" where
  "get_device_attribute h device_id attr_name =
     (case map_of (devices h) device_id of
        None \<Rightarrow> Inr None
      | Some state \<Rightarrow>
          if truthy state then
            (case subscript state ''attributes'' of
               Inl e \<Rightarrow> Inl e
             | Inr attrs \<Rightarrow>
                 (case py_iter attrs of
                    Inl e \<Rightarrow> Inl e
                  | Inr xs \<Rightarrow> get_attr_loop xs attr_name))
          else Inr None)"

section \<open>Events\<close>

text \<open>
  The \<^verbatim>\<open>content\<close> of a decoded event. The annotations of \<^verbatim>\<open>_update_device_attr\<close> type
  the device id and the attribute name as strings; the value is any decoded value.
\<close>

record event =
  deviceId :: string
  name :: string
  ev_value :: json
  displayName :: string

text \<open>
  The loop of \<^verbatim>\<open>_update_device_attr\<close>: \<open>Some\<close> of the list in which the first
  attribute of that name has its \<^verbatim>\<open>currentValue\<close> overwritten, \<open>None\<close> when the loop ends
  without a match.
\<close>

fun update_attr_loop :: "json list \<Rightarrow> string \<Rightarrow> json \<Rightarrow> error + json list option" where
  "update_attr_loop [] attr_name v = Inr None"
| "update_attr_loop (a # as) attr_name v =
     (case subscript a ''name'' of
        Inl e \<Rightarrow> Inl e
      | Inr nm \<Rightarrow>
          if nm = JStr attr_name then
            (case setitem a ''currentValue'' v of
               Inl e \<Rightarrow> Inl e
             | Inr a' \<Rightarrow> Inr (Some (a' # as)))
          else
            (case update_attr_loop as attr_name v of
               Inl e \<Rightarrow> Inl e
             | Inr None \<Rightarrow> Inr None
             | Inr (Some as') \<Rightarrow> Inr (Some (a # as'))))"

text \<open>
  The attribute is mutated in place, inside the list inside the device. Here the device
  is rebuilt around the new list. Only a list holds dicts as elements (the elements of
  a dict or of a string are strings, on which \<^verbatim>\<open>attr["name"]\<close> raises), so nothing is
  stored back in the other cases.
\<close>

fun store_attrs :: "json \<Rightarrow> json \<Rightarrow> json list \<Rightarrow> json" where
  "store_attrs (JObj kvs) (JList xs) xs' = JObj (AList.update ''attributes'' (JList xs') kvs)"
| "store_attrs state attrs xs' = state"

definition update_device_attr ::
  "string \<Rightarrow> string \<Rightarrow> json \<Rightarrow> hub \<Rightarrow> (error + unit) \<times> hub" where
  "update_device_attr device_id attr_name v h =
     (case map_of (devices h) device_id of
        None \<Rightarrow> (Inr (), h)
      | Some state \<Rightarrow>
          (case subscript state ''attributes'' of
             Inl e \<Rightarrow> (Inl e, h)
           | Inr attrs \<Rightarrow>
               (case py_iter attrs of
                  Inl e \<Rightarrow> (Inl e, h)
                | Inr xs \<Rightarrow>
                    (case update_attr_loop xs attr_name v of
                       Inl e \<Rightarrow> (Inl e, h)
                     | Inr None \<Rightarrow>
                         (Inl (InvalidAttribute
                                (''Device '' @ device_id @ '' has no attribute '' @ attr_name)), h)
                     | Inr (Some xs') \<Rightarrow>
                         (Inr (), h\<lparr>devices :=
                                      AList.update device_id (store_attrs state attrs xs')
                                        (devices h)\<rparr>)))))"

definition process_event :: "event \<Rightarrow> hub \<Rightarrow> (error + unit) \<times> hub" where
  "process_event ev h =
     (let device_id = deviceId ev
      in case update_device_attr device_id (name ev) (ev_value ev) h of
           (Inl e, h') \<Rightarrow> (Inl e, h')
         | (Inr u, h') \<Rightarrow>
             (case map_of (listeners h') device_id of
                None \<Rightarrow> (Inr (), h')
              | Some ls \<Rightarrow> call_listeners ls h'))"

section \<open>Construction\<close>

text \<open>
  \<^verbatim>\<open>urllib.parse.urlparse\<close> is the standard library's, not the repository's. It is
  written out here after CPython 3.11, on bytes: every character it tests is ASCII, so
  the bytes of other characters pass through unchanged.
\<close>

text \<open>
  Two validations of a network location call further into the library (the parser of
  \<^verbatim>\<open>ipaddress\<close>, the NFKC normalisation of \<^verbatim>\<open>unicodedata\<close>). They are parameters:
  \<open>check_bracketed_host\<close> says whether \<^verbatim>\<open>_check_bracketed_host\<close> accepts the text between
  the brackets, \<open>checknetloc\<close> whether \<^verbatim>\<open>_checknetloc\<close> accepts a network location that
  is not ASCII. What they refuse raises \<^verbatim>\<open>ValueError\<close>.
\<close>

record urllib =
  check_bracketed_host :: "string \<Rightarrow> bool"
  checknetloc :: "string \<Rightarrow> bool"

definition isascii :: "string \<Rightarrow> bool" where
  "isascii s = list_all (\<lambda>c. (of_char c :: nat) < 128) s"

text \<open>\<^verbatim>\<open>netloc.partition('[')[2].partition(']')[0]\<close>.\<close>

definition bracketed_host :: "string \<Rightarrow> string" where
  "bracketed_host netloc =
     takeWhile (\<lambda>x. x \<noteq> CHR '']'') (drop 1 (dropWhile (\<lambda>x. x \<noteq> CHR ''['') netloc))"

record parse_result =
  u_scheme :: string
  u_netloc :: string
  u_path :: string
  u_params :: string
  u_query :: string
  u_fragment :: string

definition ascii_lowercase :: string where
  "ascii_lowercase = ''abcdefghijklmnopqrstuvwxyz''"

definition ascii_uppercase :: string where
  "ascii_uppercase = ''ABCDEFGHIJKLMNOPQRSTUVWXYZ''"

definition scheme_chars :: string where
  "scheme_chars = ascii_lowercase @ ascii_uppercase @ ''0123456789'' @ ''+-.''"

definition uses_params :: "string list" where
  "uses_params = [[], ''ftp'', ''hdl'', ''prospero'', ''http'', ''imap'',
                  ''https'', ''shttp'', ''rtsp'', ''rtsps'', ''rtspu'', ''sip'',
                  ''sips'', ''mms'', ''sftp'', ''tel'']"

definition lower_char :: "char \<Rightarrow> char" where
  "lower_char c =
     (case map_of (zip ascii_uppercase ascii_lowercase) c of None \<Rightarrow> c | Some l \<Rightarrow> l)"

text \<open>The characters \<^verbatim>\<open>urlsplit\<close> strips from the left: code points 0 to 32.\<close>

definition c0_control_or_space :: "char \<Rightarrow> bool" where
  "c0_control_or_space c = ((of_char c :: nat) \<le> 32)"

text \<open>Tab, carriage return and line feed are removed wherever they stand.\<close>

definition unsafe_url_byte :: "char \<Rightarrow> bool" where
  "unsafe_url_byte c = ((of_char c :: nat) \<in> {9, 13, 10})"

text \<open>\<^verbatim>\<open>url.split(c, 1)\<close> for a character that occurs in \<open>url\<close>.\<close>

definition split_once :: "char \<Rightarrow> string \<Rightarrow> string \<times> string" where
  "split_once c url = (takeWhile (\<lambda>x. x \<noteq> c) url, drop 1 (dropWhile (\<lambda>x. x \<noteq> c) url))"

text \<open>
  The test for a scheme: a colon not at the front, an ASCII letter first, and only
  scheme characters before the colon.
\<close>

definition has_scheme :: "string \<Rightarrow> bool" where
  "has_scheme url =
     (CHR '':'' \<in> set url \<and>
      (let pre = takeWhile (\<lambda>x. x \<noteq> CHR '':'') url
       in pre \<noteq> [] \<and> hd url \<in> set (ascii_lowercase @ ascii_uppercase) \<and>
          list_all (\<lambda>c. c \<in> set scheme_chars) pre))"

definition splitnetloc :: "string \<Rightarrow> nat \<Rightarrow> string \<times> string" where
  "splitnetloc url start =
     (let rest = drop start url;
          n = length (takeWhile (\<lambda>c. c \<notin> set ''/?#'') rest)
      in (take n rest, drop n rest))"

definition splitparams :: "string \<Rightarrow> string \<times> string" where
  "splitparams url =
     (if CHR ''/'' \<in> set url then
        (let j = length url - 1 - length (takeWhile (\<lambda>x. x \<noteq> CHR ''/'') (rev url));
             rest = drop j url
         in if CHR '';'' \<in> set rest then
              (let i = j + length (takeWhile (\<lambda>x. x \<noteq> CHR '';'') rest)
               in (take i url, drop (i + 1) url))
            else (url, []))
      else split_once CHR '';'' url)"

definition urlsplit :: "urllib \<Rightarrow> string \<Rightarrow> error + parse_result" where
  "urlsplit lib url0 =
     (let url1 = filter (\<lambda>c. \<not> unsafe_url_byte c) (dropWhile c0_control_or_space url0);
          (sch, url2) = (if has_scheme url1
                         then (map lower_char (takeWhile (\<lambda>x. x \<noteq> CHR '':'') url1),
                               drop 1 (dropWhile (\<lambda>x. x \<noteq> CHR '':'') url1))
                         else ([], url1));
          (netloc, url3) = (if take 2 url2 = ''//'' then splitnetloc url2 2 else ([], url2))
      in if (CHR ''['' \<in> set netloc \<and> CHR '']'' \<notin> set netloc) \<or>
            (CHR '']'' \<in> set netloc \<and> CHR ''['' \<notin> set netloc)
         then Inl ValueError
         else if CHR ''['' \<in> set netloc \<and> CHR '']'' \<in> set netloc \<and>
                 \<not> check_bracketed_host lib (bracketed_host netloc)
         then Inl ValueError
         else if netloc \<noteq> [] \<and> \<not> isascii netloc \<and> \<not> checknetloc lib netloc
         then Inl ValueError
         else
           (let (url4, fragment) = (if CHR ''#'' \<in> set url3 then split_once CHR ''#'' url3
                                    else (url3, []));
                (url5, query) = (if CHR ''?'' \<in> set url4 then split_once CHR ''?'' url4
                                 else (url4, []))
            in Inr \<lparr>u_scheme = sch, u_netloc = netloc, u_path = url5, u_params = [],
                     u_query = query, u_fragment = fragment\<rparr>))"

definition urlparse :: "urllib \<Rightarrow> string \<Rightarrow> error + parse_result" where
  "urlparse lib url =
     (case urlsplit lib url of
        Inl e \<Rightarrow> Inl e
      | Inr r \<Rightarrow>
          if u_scheme r \<in> set uses_params \<and> CHR '';'' \<in> set (u_path r) then
            (let (p, ps) = splitparams (u_path r) in Inr (r\<lparr>u_path := p, u_params := ps\<rparr>))
          else Inr r)"

text \<open>
  \<^verbatim>\<open>Hub.__init__(host, app_id, access_token, port, address)\<close>. It assigns every field
  except \<^verbatim>\<open>_server\<close>. The first argument here is the library that \<^verbatim>\<open>urlparse\<close> calls.
\<close>

definition init ::
  "urllib \<Rightarrow> string \<Rightarrow> string \<Rightarrow> string \<Rightarrow> int option \<Rightarrow> string option \<Rightarrow> error + hub" where
  "init lib host_arg app access_token port_arg address_arg =
     (if host_arg = [] \<or> app = [] \<or> access_token = [] then Inl InvalidConfig
      else
        (case urlparse lib host_arg of
           Inl e \<Rightarrow> Inl e
         | Inr host_url \<Rightarrow>
             (let sch = (if u_scheme host_url = [] then ''http'' else u_scheme host_url);
                  hst = (if u_netloc host_url = [] then u_path host_url else u_netloc host_url)
              in Inr \<lparr>scheme = sch, host = hst, app_id = app, token = access_token,
                       api_url = sch @ ''://'' @ hst @ ''/apps/api/'' @ app,
                       address = (case address_arg of
                                    None \<Rightarrow> ''0.0.0.0''
                                  | Some a \<Rightarrow> if a = [] then ''0.0.0.0'' else a),
                       port = (case port_arg of None \<Rightarrow> 0 | Some p \<Rightarrow> p),
                       mac = None, started = False, devices = [], info = [],
                       listeners = [], server = Unset, requests = [], invoked = []\<rparr>)))"

text \<open>
  A bare host: the scheme test fails on it, and it holds none of the characters that
  end the path (\<^verbatim>\<open>/ ? # ;\<close>) or that are stripped (code points up to 32).
\<close>

definition bare_host :: "string \<Rightarrow> bool" where
  "bare_host h =
     (\<not> has_scheme h \<and> list_all (\<lambda>c. c \<notin> set ''/?#;'' \<and> (32::nat) < of_char c) h)"

text \<open>The characters of host names and of dotted addresses.\<close>

definition hostname_chars :: string where
  "hostname_chars = ascii_lowercase @ ascii_uppercase @ ''0123456789'' @ ''.-''"

section \<open>Shutdown\<close>

text \<open>
  Modelled from the spec: the module \<^verbatim>\<open>server\<close> is not among the sources. The spec
  asks of the listener collaborator \<^verbatim>\<open>start()\<close>, \<^verbatim>\<open>stop()\<close> and a callback \<^verbatim>\<open>url\<close>;
  stopping is taken to succeed and to leave the server not running.
\<close>

definition server_stop :: "server \<Rightarrow> server" where
  "server_stop s = s\<lparr>running := False\<rparr>"

text \<open>
  \<^verbatim>\<open>Hub.stop()\<close>. The test \<^verbatim>\<open>if self._server:\<close> reads the attribute first; the only
  assignment to it is in \<^verbatim>\<open>start()\<close>. A server object is truthy.
\<close>

definition stop :: "hub \<Rightarrow> (error + unit) \<times> hub" where
  "stop h =
     (case server h of
        Unset \<Rightarrow> (Inl (AttributeError ''_server''), h)
      | Assigned s \<Rightarrow>
          (Inr (), h\<lparr>server := Assigned (server_stop s), listeners := [], started := False\<rparr>))"

section \<open>Example values\<close>

text \<open>The device of the docstring of \<^verbatim>\<open>_load_device\<close>, with the switch off.\<close>

definition example_device :: json where
  "example_device =
     JObj [(''id'', JStr ''1922''),
           (''name'', JStr ''Generic Z-Wave Smart Dimmer''),
           (''label'', JStr ''Bedroom Light''),
           (''attributes'',
              JList [JObj [(''dataType'', JStr ''NUMBER''), (''currentValue'', JInt 10),
                           (''name'', JStr ''level'')],
                     JObj [(''values'', JList [JStr ''on'', JStr ''off'']),
                           (''name'', JStr ''switch''), (''currentValue'', JStr ''off''),
                           (''dataType'', JStr ''ENUM'')]]),
           (''capabilities'', JList [JStr ''Switch'', JStr ''Configuration'', JStr ''SwitchLevel'']),
           (''commands'', JList [JStr ''configure'', JStr ''flash'', JStr ''off'', JStr ''on'',
                                 JStr ''refresh'', JStr ''setLevel''])]"

definition other_device :: json where
  "other_device =
     JObj [(''id'', JStr ''2001''),
           (''name'', JStr ''Generic Z-Wave Switch''),
           (''label'', JStr ''Porch Light''),
           (''attributes'',
              JList [JObj [(''values'', JList [JStr ''on'', JStr ''off'']),
                           (''name'', JStr ''switch''), (''currentValue'', JStr ''on''),
                           (''dataType'', JStr ''ENUM'')]]),
           (''capabilities'', JList [JStr ''Switch'']),
           (''commands'', JList [JStr ''off'', JStr ''on''])]"

text \<open>
  A hub with two cached devices; listener 3 is registered twice for the first.
\<close>

definition example_hub :: hub where
  "example_hub =
     \<lparr>scheme = ''http'', host = ''10.0.1.99'', app_id = ''1'', token = ''tok'',
      api_url = ''http://10.0.1.99/apps/api/1'', address = ''0.0.0.0'', port = 0,
      mac = None, started = False,
      devices = [(''1922'', example_device), (''2001'', other_device)], info = [],
      listeners = [(''1922'', [Listener 3 None, Listener 5 None, Listener 3 None]),
                   (''2001'', [Listener 8 None])],
      server = Unset,
      requests = [], invoked = []\<rparr>"

text \<open>The same hub when the first listener of device 1922 raises.\<close>

definition raising_hub :: hub where
  "raising_hub =
     example_hub\<lparr>listeners :=
       [(''1922'', [Listener 3 (Some (Exception ''boom'')), Listener 5 None]),
        (''2001'', [Listener 8 None])]\<rparr>"

text \<open>What \<^verbatim>\<open>Hub("10.0.1.99", "1", "tok")\<close> constructs.\<close>

definition fresh_hub :: hub where
  "fresh_hub =
     \<lparr>scheme = ''http'', host = ''10.0.1.99'', app_id = ''1'', token = ''tok'',
      api_url = ''http://10.0.1.99/apps/api/1'', address = ''0.0.0.0'', port = 0,
      mac = None, started = False, devices = [], info = [], listeners = [],
      server = Unset, requests = [], invoked = []\<rparr>"

definition example_event :: event where
  "example_event =
     \<lparr>deviceId = ''1922'', name = ''switch'', ev_value = JStr ''on'',
      displayName = ''Bedroom Light''\<rparr>"

text \<open>
  The shape of a device in the docstring of \<^verbatim>\<open>_load_device\<close>, as far as the lookups
  read it: a dict whose \<^verbatim>\<open>attributes\<close> is a list of dicts that each have a \<^verbatim>\<open>name\<close>.
\<close>

fun wf_attr :: "json \<Rightarrow> bool" where
  "wf_attr (JObj kvs) = (map_of kvs ''name'' \<noteq> None)"
| "wf_attr a = False"

fun wf_device :: "json \<Rightarrow> bool" where
  "wf_device (JObj kvs) =
     (case map_of kvs ''attributes'' of Some (JList xs) \<Rightarrow> list_all wf_attr xs | _ \<Rightarrow> False)"
| "wf_device state = False"

text \<open>A network that answers every request alike.\<close>

definition always :: "outcome \<Rightarrow> request \<Rightarrow> outcome" where
  "always out req = out"

section \<open>The classification of responses\<close>

lemma in_keys_iff: "k \<in> fst ` set kvs \<longleftrightarrow> map_of kvs k \<noteq> None"
  by (simp add: map_of_eq_None_iff)

lemma api_response_cases:
  "api_response status body =
     (if status = 401 then Inl InvalidToken
      else if status \<ge> 400 then Inl (RequestError status)
      else (case body of
              JObj kvs \<Rightarrow> (case map_of kvs ''error'' of
                             None \<Rightarrow> Inr body
                           | Some v \<Rightarrow> if truthy v then Inl (RequestError status) else Inr body)
            | JList xs \<Rightarrow> if JStr ''error'' \<in> set xs then Inl TypeError else Inr body
            | JStr s \<Rightarrow> if sublist ''error'' s then Inl TypeError else Inr body
            | JNull \<Rightarrow> Inl TypeError
            | JBool b \<Rightarrow> Inl TypeError
            | JInt i \<Rightarrow> Inl TypeError))"
  by (cases body) (auto simp: api_response_def in_keys_iff split: option.splits)

text \<open>
  On a body that is a JSON object the request layer does what the spec says: 401 is
  \<open>InvalidToken\<close>, any other status from 400 on is \<open>RequestError\<close>, a truthy \<^verbatim>\<open>error\<close>
  entry below 400 is \<open>RequestError\<close>, and everything else returns the body unchanged.
\<close>

lemma api_request_object_body:
  assumes "net \<lparr>rmethod = method, rurl = api_url h @ ''/'' @ path,
                 params = [(''access_token'', token h)]\<rparr> = Resp status (JObj kvs)"
  shows "fst (api_request net path method h) =
     (if status = 401 then Inl InvalidToken
      else if status \<ge> 400 then Inl (RequestError status)
      else (case map_of kvs ''error'' of
              None \<Rightarrow> Inr (JObj kvs)
            | Some v \<Rightarrow> if truthy v then Inl (RequestError status) else Inr (JObj kvs)))"
  using assms by (simp add: api_request_def Let_def api_response_cases)

text \<open>The status decides alone from 400 on, whatever the body.\<close>

lemma api_request_error_status:
  assumes "net \<lparr>rmethod = method, rurl = api_url h @ ''/'' @ path,
                 params = [(''access_token'', token h)]\<rparr> = Resp status body"
    and "status \<ge> 400"
  shows "fst (api_request net path method h) =
           (if status = 401 then Inl InvalidToken else Inl (RequestError status))"
  using assms by (simp add: api_request_def Let_def api_response_def)

text \<open>Scenario D of the spec: status 200 with an \<^verbatim>\<open>error\<close> entry that is true.\<close>

lemma api_request_scenario_d:
  "fst (api_request (always (Resp 200 (JObj [(''error'', JBool True)]))) ''devices'' ''GET''
          example_hub) = Inl (RequestError 200)"
  using api_request_object_body [of "always (Resp 200 (JObj [(''error'', JBool True)]))"
      "''GET''" example_hub "''devices''" 200 "[(''error'', JBool True)]"]
  by (simp add: always_def)

text \<open>
  C1 fails on the code for a body that is not a JSON object. The test
  \<^verbatim>\<open>"error" in json and json["error"]\<close> is written for a dict. On the array \<^verbatim>\<open>["error"]\<close>
  with status 200 the membership test is element membership and holds, and
  \<^verbatim>\<open>json["error"]\<close> then raises \<open>TypeError\<close>: the body has no \<^verbatim>\<open>error\<close> field, yet it is
  not returned.
\<close>

theorem api_request_array_body:
  "fst (api_request (always (Resp 200 (JList [JStr ''error'']))) ''devices'' ''GET'' example_hub)
     = Inl TypeError \<and>
   fst (api_request (always (Resp 200 (JList [JStr ''error'']))) ''devices'' ''GET'' example_hub)
     \<noteq> Inr (JList [JStr ''error''])"
  by (simp add: api_request_def always_def api_response_def)

section \<open>Lemmas about the loops\<close>

lemma call_listeners_eq:
  "call_listeners ls h = (dispatch_result ls, h\<lparr>invoked := invoked h @ called ls\<rparr>)"
proof (induction ls arbitrary: h)
  case Nil
  show ?case by (simp add: dispatch_result_def called_def)
next
  case (Cons l ls)
  show ?case
  proof (cases "raises l")
    case None
    then show ?thesis
      by (simp add: Cons.IH dispatch_result_def called_def returns_def)
  next
    case (Some e)
    then show ?thesis
      by (simp add: dispatch_result_def called_def returns_def)
  qed
qed

lemma called_all_return:
  assumes "list_all returns ls"
  shows "called ls = ls" and "dispatch_result ls = Inr ()"
proof -
  from assms have tw: "takeWhile returns ls = ls" and dw: "dropWhile returns ls = []"
    by (simp_all add: list_all_iff)
  show "called ls = ls" and "dispatch_result ls = Inr ()"
    unfolding called_def dispatch_result_def tw dw by simp_all
qed

lemma called_prefix: "prefix (called ls) ls"
proof -
  have "called ls @ drop 1 (dropWhile returns ls) = ls"
    by (simp add: called_def)
  then show ?thesis by (metis prefixI)
qed

lemma subscript_Inr_iff:
  "subscript a k = Inr v \<longleftrightarrow> (\<exists>kvs. a = JObj kvs \<and> map_of kvs k = Some v)"
  by (cases a) (auto split: option.splits)

lemma has_attr_loop_keys: "has_attr_loop (map (\<lambda>kv. JStr (fst kv)) kvs) n \<noteq> Inr True"
  by (cases kvs) simp_all

lemma has_attr_loop_chars: "has_attr_loop (map (\<lambda>c. JStr [c]) s) n \<noteq> Inr True"
  by (cases s) simp_all

lemma py_iter_has_attr:
  assumes "py_iter attrs = Inr xs" and "has_attr_loop xs n = Inr True"
  shows "attrs = JList xs"
  using assms by (cases attrs) (auto simp: has_attr_loop_keys has_attr_loop_chars)

lemma update_attr_loop_found:
  assumes "has_attr_loop xs n = Inr True"
  shows "\<exists>i a. i < length xs \<and> xs ! i = JObj a \<and> map_of a ''name'' = Some (JStr n) \<and>
           update_attr_loop xs n v = Inr (Some (xs[i := JObj (AList.update ''currentValue'' v a)]))"
  using assms
proof (induction xs)
  case Nil
  then show ?case by simp
next
  case (Cons x xs)
  from Cons.prems obtain kvs nm where x: "x = JObj kvs" and nm: "map_of kvs ''name'' = Some nm"
    by (cases x) (auto split: option.splits)
  show ?case
  proof (cases "nm = JStr n")
    case True
    with x nm have "update_attr_loop (x # xs) n v
        = Inr (Some ((x # xs)[0 := JObj (AList.update ''currentValue'' v kvs)]))"
      by simp
    with x nm True show ?thesis by (intro exI [of _ 0] exI [of _ kvs]) simp
  next
    case False
    with Cons.prems x nm have "has_attr_loop xs n = Inr True" by simp
    from Cons.IH [OF this] obtain i a where
      i: "i < length xs" "xs ! i = JObj a" "map_of a ''name'' = Some (JStr n)"
        "update_attr_loop xs n v = Inr (Some (xs[i := JObj (AList.update ''currentValue'' v a)]))"
      by blast
    with x nm False have "update_attr_loop (x # xs) n v
        = Inr (Some ((x # xs)[Suc i := JObj (AList.update ''currentValue'' v a)]))"
      by simp
    with i show ?thesis by (intro exI [of _ "Suc i"] exI [of _ a]) simp
  qed
qed

lemma get_after_update:
  assumes "has_attr_loop xs n = Inr True"
  shows "\<exists>ys a. update_attr_loop xs n v = Inr (Some ys) \<and> get_attr_loop ys n = Inr (Some a) \<and>
           subscript a ''currentValue'' = Inr v"
  using assms
proof (induction xs)
  case Nil
  then show ?case by simp
next
  case (Cons x xs)
  from Cons.prems obtain kvs nm where x: "x = JObj kvs" and nm: "map_of kvs ''name'' = Some nm"
    by (cases x) (auto split: option.splits)
  show ?case
  proof (cases "nm = JStr n")
    case True
    with x nm show ?thesis by (simp add: update_conv')
  next
    case False
    with Cons.prems x nm have "has_attr_loop xs n = Inr True" by simp
    from Cons.IH [OF this] obtain ys a where
      "update_attr_loop xs n v = Inr (Some ys)" "get_attr_loop ys n = Inr (Some a)"
      "subscript a ''currentValue'' = Inr v"
      by blast
    with x nm False show ?thesis by simp
  qed
qed

lemma loops_not_found:
  assumes "has_attr_loop xs n = Inr False"
  shows "update_attr_loop xs n v = Inr None \<and> get_attr_loop xs n = Inr None"
  using assms
proof (induction xs)
  case Nil
  then show ?case by simp
next
  case (Cons x xs)
  then show ?case by (auto split: sum.splits if_splits)
qed

lemma device_has_attribute_TrueD:
  assumes "device_has_attribute h d n = Inr True"
  shows "\<exists>kvs xs. map_of (devices h) d = Some (JObj kvs) \<and>
           map_of kvs ''attributes'' = Some (JList xs) \<and> has_attr_loop xs n = Inr True"
proof -
  from assms obtain state attrs xs where
    st: "map_of (devices h) d = Some state" and at: "subscript state ''attributes'' = Inr attrs"
    and it: "py_iter attrs = Inr xs" and lp: "has_attr_loop xs n = Inr True"
    by (auto simp: device_has_attribute_def split: option.splits sum.splits)
  from it lp have "attrs = JList xs" by (rule py_iter_has_attr)
  with st at lp show ?thesis by (auto simp: subscript_Inr_iff)
qed

lemma device_has_attribute_FalseD:
  assumes "device_has_attribute h d n = Inr False"
  shows "\<exists>state attrs xs. map_of (devices h) d = Some state \<and>
           subscript state ''attributes'' = Inr attrs \<and> py_iter attrs = Inr xs \<and>
           has_attr_loop xs n = Inr False"
  using assms by (auto simp: device_has_attribute_def split: option.splits sum.splits)

lemma update_device_attr_known:
  assumes "map_of (devices h) d = Some (JObj kvs)"
    and "map_of kvs ''attributes'' = Some (JList xs)"
    and "update_attr_loop xs n v = Inr (Some ys)"
  shows "update_device_attr d n v h =
           (Inr (), h\<lparr>devices := AList.update d
                      (JObj (AList.update ''attributes'' (JList ys) kvs)) (devices h)\<rparr>)"
  using assms by (simp add: update_device_attr_def)

lemma add_device_listener_appends:
  "map_of (listeners (add_device_listener d l h)) d =
     Some ((case map_of (listeners h) d of None \<Rightarrow> [] | Some ls \<Rightarrow> ls) @ [l])"
  by (auto simp: add_device_listener_def Let_def update_conv' map_of_eq_None_iff [symmetric]
      split: option.splits)

lemma add_device_listener_others:
  "d' \<noteq> d \<Longrightarrow> map_of (listeners (add_device_listener d l h)) d' = map_of (listeners h) d'"
  by (simp add: add_device_listener_def Let_def update_conv')

text \<open>
  On a device of the documented shape both lookups return: the strict one a boolean, the
  lenient one an attribute or \<^verbatim>\<open>None\<close>. So for a cached device of that shape an
  attribute name is either found by \<^verbatim>\<open>device_has_attribute\<close> or not, and nothing is
  raised.
\<close>

lemma wf_attrs_has_attr_loop:
  assumes "list_all wf_attr xs"
  shows "\<exists>b. has_attr_loop xs n = Inr b"
  using assms
proof (induction xs)
  case Nil
  then show ?case by auto
next
  case (Cons x xs)
  then obtain kvs nm where "x = JObj kvs" "map_of kvs ''name'' = Some nm"
    by (cases x) auto
  with Cons show ?case by auto
qed

lemma wf_attrs_get_attr_loop:
  assumes "list_all wf_attr xs"
  shows "\<exists>r. get_attr_loop xs n = Inr r"
  using assms
proof (induction xs)
  case Nil
  then show ?case by simp
next
  case (Cons x xs)
  then obtain kvs nm where "x = JObj kvs" "map_of kvs ''name'' = Some nm"
    by (cases x) auto
  with Cons show ?case by auto
qed

text \<open>
  On such a list the strict lookup says exactly whether some element has the name.
\<close>

lemma wf_attrs_has_attr_loop_iff:
  assumes "list_all wf_attr xs"
  shows "has_attr_loop xs n = Inr (\<exists>a \<in> set xs. subscript a ''name'' = Inr (JStr n))"
  using assms
proof (induction xs)
  case Nil
  then show ?case by simp
next
  case (Cons x xs)
  then obtain kvs nm where "x = JObj kvs" "map_of kvs ''name'' = Some nm"
    by (cases x) auto
  with Cons show ?case by auto
qed

lemma wf_deviceD:
  assumes "wf_device state"
  shows "\<exists>kvs xs. state = JObj kvs \<and> map_of kvs ''attributes'' = Some (JList xs) \<and>
           list_all wf_attr xs"
  using assms by (cases state) (auto split: option.splits json.splits)

lemma wf_device_lookups_total:
  assumes "map_of (devices h) d = Some state" and "wf_device state"
  shows "(\<exists>b. device_has_attribute h d n = Inr b) \<and> (\<exists>r. get_device_attribute h d n = Inr r)"
proof -
  from wf_deviceD [OF assms(2)] obtain kvs xs where
    s: "state = JObj kvs" "map_of kvs ''attributes'' = Some (JList xs)" "list_all wf_attr xs"
    by blast
  from s(2) have ne: "kvs \<noteq> []" by auto
  from wf_attrs_has_attr_loop [OF s(3), of n] wf_attrs_get_attr_loop [OF s(3), of n]
  show ?thesis
    using assms(1) s(1,2) ne
    by (simp add: device_has_attribute_def get_device_attribute_def)
qed

lemma example_devices_wf: "wf_device example_device \<and> wf_device other_device"
  by (simp add: example_device_def other_device_def)

section \<open>Events on the cache\<close>

text \<open>
  C2, as the code has it. When \<^verbatim>\<open>device_has_attribute\<close> holds for the event's device
  id and attribute name (the device is cached and has an attribute of that name),
  processing the event writes the event's value: the attribute read back under that
  name has it as its \<^verbatim>\<open>currentValue\<close>. The listeners registered for the device id are
  then called in the order of registration, each at most once, up to and including the
  first that raises; what it raises is the result of \<^verbatim>\<open>process_event\<close>. When no
  registered listener raises, processing succeeds and every registered listener is
  called exactly once.
\<close>

theorem process_event_known_attribute:
  assumes "device_has_attribute h (deviceId ev) (name ev) = Inr True"
  shows "\<exists>h' a. process_event ev h = (dispatch_result (registered h (deviceId ev)), h') \<and>
           get_device_attribute h' (deviceId ev) (name ev) = Inr (Some a) \<and>
           subscript a ''currentValue'' = Inr (ev_value ev) \<and>
           invoked h' = invoked h @ called (registered h (deviceId ev)) \<and>
           prefix (called (registered h (deviceId ev))) (registered h (deviceId ev)) \<and>
           (list_all returns (registered h (deviceId ev)) \<longrightarrow>
              process_event ev h = (Inr (), h') \<and>
              invoked h' = invoked h @ registered h (deviceId ev))"
proof -
  from device_has_attribute_TrueD [OF assms] obtain kvs xs where
    st: "map_of (devices h) (deviceId ev) = Some (JObj kvs)"
    and at: "map_of kvs ''attributes'' = Some (JList xs)"
    and lp: "has_attr_loop xs (name ev) = Inr True"
    by blast
  from get_after_update [OF lp, of "ev_value ev"] obtain ys a where
    up: "update_attr_loop xs (name ev) (ev_value ev) = Inr (Some ys)"
    and ge: "get_attr_loop ys (name ev) = Inr (Some a)"
    and cv: "subscript a ''currentValue'' = Inr (ev_value ev)"
    by blast
  let ?h1 = "h\<lparr>devices := AList.update (deviceId ev)
               (JObj (AList.update ''attributes'' (JList ys) kvs)) (devices h)\<rparr>"
  let ?ls = "registered h (deviceId ev)"
  let ?h' = "?h1\<lparr>invoked := invoked h @ called ?ls\<rparr>"
  have u: "update_device_attr (deviceId ev) (name ev) (ev_value ev) h = (Inr (), ?h1)"
    using st at up by (rule update_device_attr_known)
  have p: "process_event ev h = (dispatch_result ?ls, ?h')"
    by (simp add: process_event_def Let_def u call_listeners_eq registered_def
        dispatch_result_def called_def split: option.splits)
  have g: "get_device_attribute ?h' (deviceId ev) (name ev) = Inr (Some a)"
    using ge by (simp add: get_device_attribute_def update_conv')
  have i: "invoked ?h' = invoked h @ called ?ls" by simp
  have r: "list_all returns ?ls \<longrightarrow>
             process_event ev h = (Inr (), ?h') \<and> invoked ?h' = invoked h @ ?ls"
    using p by (simp add: called_all_return)
  from p g cv i r called_prefix [of ?ls] show ?thesis by blast
qed

text \<open>
  Scenario B of the spec: device 1922 with its switch off, an event that turns it on,
  and listener 3 registered twice; no listener raises.
\<close>

theorem process_event_known_attribute_witness:
  "device_has_attribute example_hub (deviceId example_event) (name example_event) = Inr True \<and>
   list_all returns (registered example_hub (deviceId example_event)) \<and>
   fst (process_event example_event example_hub) = Inr () \<and>
   get_device_attribute (snd (process_event example_event example_hub)) ''1922'' ''switch''
     = Inr (Some (JObj [(''values'', JList [JStr ''on'', JStr ''off'']),
                        (''name'', JStr ''switch''), (''currentValue'', JStr ''on''),
                        (''dataType'', JStr ''ENUM'')])) \<and>
   invoked (snd (process_event example_event example_hub))
     = [Listener 3 None, Listener 5 None, Listener 3 None]"
proof -
  have t: "device_has_attribute example_hub (deviceId example_event) (name example_event)
             = Inr True"
    by (simp add: device_has_attribute_def example_hub_def example_event_def
        example_device_def)
  have reg: "registered example_hub (deviceId example_event)
               = [Listener 3 None, Listener 5 None, Listener 3 None]"
    by (simp add: registered_def example_hub_def example_event_def)
  have ret: "list_all returns (registered example_hub (deviceId example_event))"
    by (simp add: reg returns_def)
  from process_event_known_attribute [OF t] ret obtain h' where
    p: "process_event example_event example_hub = (Inr (), h')"
    and i: "invoked h' = invoked example_hub @ registered example_hub (deviceId example_event)"
    by blast
  have "invoked h' = [Listener 3 None, Listener 5 None, Listener 3 None]"
    using i reg by (simp add: example_hub_def)
  moreover have "get_device_attribute (snd (process_event example_event example_hub))
      ''1922'' ''switch''
     = Inr (Some (JObj [(''values'', JList [JStr ''on'', JStr ''off'']),
                        (''name'', JStr ''switch''), (''currentValue'', JStr ''on''),
                        (''dataType'', JStr ''ENUM'')]))"
    by (simp add: process_event_def update_device_attr_def get_device_attribute_def
        example_hub_def example_event_def example_device_def Let_def)
  ultimately show ?thesis using t ret p by simp
qed

text \<open>
  C2 as stated fails when a listener raises. Listeners 3 and 5 are registered for device
  1922, in this order, and listener 3 raises: the value is written, listener 3 is
  called, its exception is the result, and listener 5 is not called.
\<close>

theorem process_event_raising_listener_counterexample:
  "device_has_attribute raising_hub (deviceId example_event) (name example_event) = Inr True \<and>
   registered raising_hub ''1922'' = [Listener 3 (Some (Exception ''boom'')), Listener 5 None] \<and>
   fst (process_event example_event raising_hub) = Inl (Exception ''boom'') \<and>
   invoked (snd (process_event example_event raising_hub))
     = [Listener 3 (Some (Exception ''boom''))] \<and>
   Listener 5 None \<notin> set (invoked (snd (process_event example_event raising_hub)))"
  by (simp add: process_event_def update_device_attr_def device_has_attribute_def
      registered_def raising_hub_def example_hub_def example_event_def example_device_def
      Let_def)

text \<open>
  C3, as the code has it. An event for a device id that is not cached leaves the cache as
  it is, and the update raises nothing: \<^verbatim>\<open>_update_device_attr\<close> returns early. But
  \<^verbatim>\<open>process_event\<close> goes on to its loop, so the listeners registered for that id are
  called as for any event: in the order of registration, up to and including the first
  that raises, whose exception is the result. When none is registered for the id, the
  event changes nothing and raises nothing.
\<close>

theorem process_event_unknown_device:
  assumes "map_of (devices h) (deviceId ev) = None"
  shows "process_event ev h =
           (dispatch_result (registered h (deviceId ev)),
            h\<lparr>invoked := invoked h @ called (registered h (deviceId ev))\<rparr>) \<and>
         devices (snd (process_event ev h)) = devices h \<and>
         (registered h (deviceId ev) = [] \<longrightarrow> process_event ev h = (Inr (), h)) \<and>
         (list_all returns (registered h (deviceId ev)) \<longrightarrow>
            process_event ev h =
              (Inr (), h\<lparr>invoked := invoked h @ registered h (deviceId ev)\<rparr>))"
proof -
  let ?ls = "registered h (deviceId ev)"
  have p: "process_event ev h = (dispatch_result ?ls, h\<lparr>invoked := invoked h @ called ?ls\<rparr>)"
    using assms
    by (simp add: process_event_def update_device_attr_def Let_def call_listeners_eq
        registered_def dispatch_result_def called_def split: option.splits)
  have e: "?ls = [] \<longrightarrow> process_event ev h = (Inr (), h)"
    using p by (simp add: dispatch_result_def called_def)
  have r: "list_all returns ?ls \<longrightarrow>
             process_event ev h = (Inr (), h\<lparr>invoked := invoked h @ ?ls\<rparr>)"
    using p by (simp add: called_all_return)
  from p e r show ?thesis by simp
qed

theorem process_event_unknown_device_witness:
  "map_of (devices example_hub) ''77'' = None \<and>
   registered example_hub ''77'' = [] \<and>
   process_event \<lparr>deviceId = ''77'', name = ''switch'', ev_value = JStr ''on'',
                   displayName = ''Gone''\<rparr> example_hub = (Inr (), example_hub)"
proof -
  have n: "map_of (devices example_hub) ''77'' = None"
    by (simp add: example_hub_def)
  have r: "registered example_hub ''77'' = []"
    by (simp add: registered_def example_hub_def)
  show ?thesis
    using n r process_event_unknown_device [of example_hub
      "\<lparr>deviceId = ''77'', name = ''switch'', ev_value = JStr ''on'', displayName = ''Gone''\<rparr>"]
    by (simp add: dispatch_result_def called_def)
qed

text \<open>
  C3 as stated fails: \<^verbatim>\<open>add_device_listener\<close> does not ask for the device to be
  cached, and listener 7, registered for the unknown id 42, is called by an event for
  that id.
\<close>

theorem process_event_unknown_device_counterexample:
  "map_of (devices (add_device_listener ''42'' (Listener 7 None) fresh_hub)) ''42'' = None \<and>
   invoked (add_device_listener ''42'' (Listener 7 None) fresh_hub) = [] \<and>
   invoked (snd (process_event \<lparr>deviceId = ''42'', name = ''switch'', ev_value = JStr ''on'',
                                  displayName = ''Gone''\<rparr>
                   (add_device_listener ''42'' (Listener 7 None) fresh_hub)))
     = [Listener 7 None]"
  by (simp add: process_event_def update_device_attr_def add_device_listener_def fresh_hub_def
      Let_def)

text \<open>
  C4. When the device is cached and \<^verbatim>\<open>device_has_attribute\<close> finds no attribute of the
  event's name on it, processing the event ends with \<open>InvalidAttribute\<close> as the result
  of \<^verbatim>\<open>process_event\<close> itself, and the hub is unchanged: no value is written and no
  listener is called.
\<close>

theorem process_event_unknown_attribute:
  assumes "device_has_attribute h (deviceId ev) (name ev) = Inr False"
  shows "process_event ev h =
           (Inl (InvalidAttribute
                  (''Device '' @ deviceId ev @ '' has no attribute '' @ name ev)), h)"
proof -
  from device_has_attribute_FalseD [OF assms] obtain state attrs xs where
    "map_of (devices h) (deviceId ev) = Some state"
    "subscript state ''attributes'' = Inr attrs" "py_iter attrs = Inr xs"
    "has_attr_loop xs (name ev) = Inr False"
    by blast
  moreover from this have "update_attr_loop xs (name ev) (ev_value ev) = Inr None"
    by (simp add: loops_not_found)
  ultimately show ?thesis
    by (simp add: process_event_def update_device_attr_def Let_def)
qed

theorem process_event_unknown_attribute_witness:
  "device_has_attribute example_hub ''1922'' ''colour'' = Inr False \<and>
   process_event \<lparr>deviceId = ''1922'', name = ''colour'', ev_value = JStr ''red'',
                   displayName = ''Bedroom Light''\<rparr> example_hub
     = (Inl (InvalidAttribute ''Device 1922 has no attribute colour''), example_hub)"
proof -
  have f: "device_has_attribute example_hub ''1922'' ''colour'' = Inr False"
    by (simp add: device_has_attribute_def example_hub_def example_device_def)
  show ?thesis
    using f process_event_unknown_attribute [of example_hub
      "\<lparr>deviceId = ''1922'', name = ''colour'', ev_value = JStr ''red'',
        displayName = ''Bedroom Light''\<rparr>"]
    by simp
qed

section \<open>Lenient and strict lookup\<close>

text \<open>
  C6. For a device id that is not cached, \<^verbatim>\<open>get_device_attribute\<close> returns \<^verbatim>\<open>None\<close>
  while \<^verbatim>\<open>device_has_attribute\<close> raises \<open>KeyError\<close> for the id. For a cached device on
  which \<^verbatim>\<open>device_has_attribute\<close> finds no attribute of the name,
  \<^verbatim>\<open>get_device_attribute\<close> returns \<^verbatim>\<open>None\<close> as well.
\<close>

theorem attribute_lookup_asymmetry:
  "(map_of (devices h) d = None \<longrightarrow>
      get_device_attribute h d n = Inr None \<and> device_has_attribute h d n = Inl (KeyError d)) \<and>
   (device_has_attribute h d n = Inr False \<longrightarrow> get_device_attribute h d n = Inr None)"
proof (intro conjI impI)
  assume "device_has_attribute h d n = Inr False"
  from device_has_attribute_FalseD [OF this] obtain state attrs xs where
    "map_of (devices h) d = Some state"
    "subscript state ''attributes'' = Inr attrs" "py_iter attrs = Inr xs"
    "has_attr_loop xs n = Inr False"
    by blast
  moreover from this have "get_attr_loop xs n = Inr None"
    by (simp add: loops_not_found)
  ultimately show "get_device_attribute h d n = Inr None"
    by (simp add: get_device_attribute_def)
qed (simp_all add: get_device_attribute_def device_has_attribute_def)

theorem attribute_lookup_asymmetry_witness:
  "map_of (devices example_hub) ''77'' = None \<and>
   get_device_attribute example_hub ''77'' ''switch'' = Inr None \<and>
   device_has_attribute example_hub ''77'' ''switch'' = Inl (KeyError ''77'') \<and>
   device_has_attribute example_hub ''1922'' ''colour'' = Inr False \<and>
   get_device_attribute example_hub ''1922'' ''colour'' = Inr None"
proof -
  have n: "map_of (devices example_hub) ''77'' = None"
    by (simp add: example_hub_def)
  have f: "device_has_attribute example_hub ''1922'' ''colour'' = Inr False"
    by (simp add: device_has_attribute_def example_hub_def example_device_def)
  show ?thesis
    using n f attribute_lookup_asymmetry [of example_hub "''77''" "''switch''"]
      attribute_lookup_asymmetry [of example_hub "''1922''" "''colour''"]
    by simp
qed

section \<open>The frame of an update\<close>

text \<open>
  C10. When an event is applied to a cached device that has an attribute of the
  event's name, processing succeeds if no registered listener raises, and whether or not
  one does, the hub afterwards differs from the hub before in the cache and in the
  record of called listeners only, so the listener registrations stay as they were. In the
  cache the ids and their order are the same and every other device has its old entry.
  In the device's entry every key but \<^verbatim>\<open>attributes\<close> has its old value; the list of
  attributes has its old length and, except at one position, its old elements; the
  attribute at that position has the event's name, and of its keys only
  \<^verbatim>\<open>currentValue\<close> changes, to the event's value.
\<close>

theorem process_event_frame:
  assumes "device_has_attribute h (deviceId ev) (name ev) = Inr True"
  shows "\<exists>h' kvs kvs' xs xs' i a a'.
           process_event ev h = (dispatch_result (registered h (deviceId ev)), h') \<and>
           (list_all returns (registered h (deviceId ev)) \<longrightarrow>
              process_event ev h = (Inr (), h')) \<and>
           h'\<lparr>devices := devices h, invoked := invoked h\<rparr> = h \<and>
           map fst (devices h') = map fst (devices h) \<and>
           (\<forall>d'. d' \<noteq> deviceId ev \<longrightarrow> map_of (devices h') d' = map_of (devices h) d') \<and>
           map_of (devices h) (deviceId ev) = Some (JObj kvs) \<and>
           map_of (devices h') (deviceId ev) = Some (JObj kvs') \<and>
           (\<forall>k. k \<noteq> ''attributes'' \<longrightarrow> map_of kvs' k = map_of kvs k) \<and>
           map_of kvs ''attributes'' = Some (JList xs) \<and>
           map_of kvs' ''attributes'' = Some (JList xs') \<and>
           length xs' = length xs \<and> i < length xs \<and>
           (\<forall>j. j \<noteq> i \<longrightarrow> xs' ! j = xs ! j) \<and>
           xs ! i = JObj a \<and> xs' ! i = JObj a' \<and>
           map_of a ''name'' = Some (JStr (name ev)) \<and>
           (\<forall>k. k \<noteq> ''currentValue'' \<longrightarrow> map_of a' k = map_of a k) \<and>
           map_of a' ''currentValue'' = Some (ev_value ev)"
proof -
  from device_has_attribute_TrueD [OF assms] obtain kvs xs where
    st: "map_of (devices h) (deviceId ev) = Some (JObj kvs)"
    and at: "map_of kvs ''attributes'' = Some (JList xs)"
    and lp: "has_attr_loop xs (name ev) = Inr True"
    by blast
  from update_attr_loop_found [OF lp, of "ev_value ev"] obtain i a where
    i: "i < length xs" and a: "xs ! i = JObj a"
    and nm: "map_of a ''name'' = Some (JStr (name ev))"
    and up: "update_attr_loop xs (name ev) (ev_value ev)
               = Inr (Some (xs[i := JObj (AList.update ''currentValue'' (ev_value ev) a)]))"
    by blast
  let ?a' = "AList.update ''currentValue'' (ev_value ev) a"
  let ?xs' = "xs[i := JObj ?a']"
  let ?kvs' = "AList.update ''attributes'' (JList ?xs') kvs"
  let ?h1 = "h\<lparr>devices := AList.update (deviceId ev) (JObj ?kvs') (devices h)\<rparr>"
  let ?ls = "registered h (deviceId ev)"
  let ?h' = "?h1\<lparr>invoked := invoked h @ called ?ls\<rparr>"
  have u: "update_device_attr (deviceId ev) (name ev) (ev_value ev) h = (Inr (), ?h1)"
    using st at up by (rule update_device_attr_known)
  have p: "process_event ev h = (dispatch_result ?ls, ?h')"
    by (simp add: process_event_def Let_def u call_listeners_eq registered_def
        dispatch_result_def called_def split: option.splits)
  have r: "list_all returns ?ls \<longrightarrow> process_event ev h = (Inr (), ?h')"
    using p by (simp add: called_all_return)
  have f1: "?h'\<lparr>devices := devices h, invoked := invoked h\<rparr> = h" by simp
  have "deviceId ev \<in> fst ` set (devices h)"
    using st by (metis in_keys_iff option.distinct(1))
  then have f2: "map fst (devices ?h') = map fst (devices h)"
    by (simp add: update_keys)
  have f3: "\<forall>d'. d' \<noteq> deviceId ev \<longrightarrow> map_of (devices ?h') d' = map_of (devices h) d'"
    by (simp add: update_conv')
  have f4: "map_of (devices ?h') (deviceId ev) = Some (JObj ?kvs')"
    by (simp add: update_conv')
  have f5: "\<forall>k. k \<noteq> ''attributes'' \<longrightarrow> map_of ?kvs' k = map_of kvs k"
    by (simp add: update_conv')
  have f6: "map_of ?kvs' ''attributes'' = Some (JList ?xs')"
    by (simp add: update_conv')
  have f7: "length ?xs' = length xs" by simp
  have f8: "\<forall>j. j \<noteq> i \<longrightarrow> ?xs' ! j = xs ! j" by simp
  have f9: "?xs' ! i = JObj ?a'" using i by simp
  have f10: "\<forall>k. k \<noteq> ''currentValue'' \<longrightarrow> map_of ?a' k = map_of a k"
    by (simp add: update_conv')
  have f11: "map_of ?a' ''currentValue'' = Some (ev_value ev)"
    by (simp add: update_conv')
  show ?thesis
    apply (rule exI [of _ ?h'], rule exI [of _ kvs], rule exI [of _ ?kvs'])
    apply (rule exI [of _ xs], rule exI [of _ ?xs'], rule exI [of _ i])
    apply (rule exI [of _ a], rule exI [of _ ?a'])
    using p r f1 f2 f3 st f4 f5 at f6 f7 i f8 a f9 nm f10 f11 by blast
qed

text \<open>
  Scenario B again: the second device, the attribute \<^verbatim>\<open>level\<close> of the first and the
  listeners are as before; only the switch of device 1922 is on.
\<close>

theorem process_event_frame_witness:
  "device_has_attribute example_hub (deviceId example_event) (name example_event) = Inr True \<and>
   fst (process_event example_event example_hub) = Inr () \<and>
   listeners (snd (process_event example_event example_hub)) = listeners example_hub \<and>
   map_of (devices (snd (process_event example_event example_hub))) ''2001''
     = Some other_device \<and>
   map_of (devices (snd (process_event example_event example_hub))) ''1922''
     = Some (JObj [(''id'', JStr ''1922''),
           (''name'', JStr ''Generic Z-Wave Smart Dimmer''),
           (''label'', JStr ''Bedroom Light''),
           (''attributes'',
              JList [JObj [(''dataType'', JStr ''NUMBER''), (''currentValue'', JInt 10),
                           (''name'', JStr ''level'')],
                     JObj [(''values'', JList [JStr ''on'', JStr ''off'']),
                           (''name'', JStr ''switch''), (''currentValue'', JStr ''on''),
                           (''dataType'', JStr ''ENUM'')]]),
           (''capabilities'', JList [JStr ''Switch'', JStr ''Configuration'', JStr ''SwitchLevel'']),
           (''commands'', JList [JStr ''configure'', JStr ''flash'', JStr ''off'', JStr ''on'',
                                 JStr ''refresh'', JStr ''setLevel''])])"
proof -
  have t: "device_has_attribute example_hub (deviceId example_event) (name example_event)
             = Inr True"
    by (simp add: device_has_attribute_def example_hub_def example_event_def
        example_device_def)
  have ret: "list_all returns (registered example_hub (deviceId example_event))"
    by (simp add: registered_def example_hub_def example_event_def returns_def)
  from process_event_frame [OF t] ret obtain h' where
    p: "process_event example_event example_hub = (Inr (), h')"
    and l: "h'\<lparr>devices := devices example_hub, invoked := invoked example_hub\<rparr> = example_hub"
    by blast
  from l have "listeners (h'\<lparr>devices := devices example_hub, invoked := invoked example_hub\<rparr>)
      = listeners example_hub"
    by simp
  then have l': "listeners h' = listeners example_hub" by simp
  let ?ds = "[(''1922'', JObj [(''id'', JStr ''1922''),
           (''name'', JStr ''Generic Z-Wave Smart Dimmer''),
           (''label'', JStr ''Bedroom Light''),
           (''attributes'',
              JList [JObj [(''dataType'', JStr ''NUMBER''), (''currentValue'', JInt 10),
                           (''name'', JStr ''level'')],
                     JObj [(''values'', JList [JStr ''on'', JStr ''off'']),
                           (''name'', JStr ''switch''), (''currentValue'', JStr ''on''),
                           (''dataType'', JStr ''ENUM'')]]),
           (''capabilities'', JList [JStr ''Switch'', JStr ''Configuration'', JStr ''SwitchLevel'']),
           (''commands'', JList [JStr ''configure'', JStr ''flash'', JStr ''off'', JStr ''on'',
                                 JStr ''refresh'', JStr ''setLevel''])]),
        (''2001'', other_device)]"
  have "devices (snd (process_event example_event example_hub)) = ?ds"
    by (simp add: process_event_def update_device_attr_def example_hub_def example_event_def
        example_device_def Let_def)
  with p have d: "devices h' = ?ds" by simp
  show ?thesis using t p l' d by simp
qed

section \<open>Loading a device\<close>

lemma api_request_requests:
  "requests (snd (api_request net path method h)) =
     requests h @ [\<lparr>rmethod = method, rurl = api_url h @ ''/'' @ path,
                     params = [(''access_token'', token h)]\<rparr>]"
  by (simp add: api_request_def Let_def split: outcome.splits)

lemma api_request_devices: "devices (snd (api_request net path method h)) = devices h"
  by (simp add: api_request_def Let_def split: outcome.splits)

text \<open>
  C5. For a device id that is cached, \<^verbatim>\<open>_load_device\<close> without force returns the hub
  as it is: no request is sent and the entry is unchanged. With force it always sends
  the one request for \<^verbatim>\<open>devices/{id}\<close>; when that request returns a body, the body
  becomes the entry of the id as a whole, in place, and when the request fails, the
  failure is the result and the cache is unchanged.
\<close>

theorem load_device_cached_or_forced:
  assumes "d \<in> set (map fst (devices h))"
  shows "load_device net d False h = (Inr (), h) \<and>
         requests (snd (load_device net d True h)) =
           requests h @ [\<lparr>rmethod = ''GET'', rurl = api_url h @ ''/devices/'' @ d,
                           params = [(''access_token'', token h)]\<rparr>] \<and>
         (\<forall>js. fst (api_request net (''devices/'' @ d) ''GET'' h) = Inr js \<longrightarrow>
            fst (load_device net d True h) = Inr () \<and>
            devices (snd (load_device net d True h)) = AList.update d js (devices h) \<and>
            map_of (devices (snd (load_device net d True h))) d = Some js) \<and>
         (\<forall>e. fst (api_request net (''devices/'' @ d) ''GET'' h) = Inl e \<longrightarrow>
            fst (load_device net d True h) = Inl e \<and>
            devices (snd (load_device net d True h)) = devices h)"
proof (intro conjI allI impI)
  show "load_device net d False h = (Inr (), h)"
    using assms by (simp add: load_device_def)
next
  show "requests (snd (load_device net d True h)) =
           requests h @ [\<lparr>rmethod = ''GET'', rurl = api_url h @ ''/devices/'' @ d,
                           params = [(''access_token'', token h)]\<rparr>]"
    using api_request_requests [of net "''devices/'' @ d" "''GET''" h]
    by (auto simp: load_device_def split: prod.splits sum.splits)
next
  fix js assume a: "fst (api_request net (''devices/'' @ d) ''GET'' h) = Inr js"
  then show "fst (load_device net d True h) = Inr ()"
    by (auto simp: load_device_def split: prod.splits sum.splits)
  from a show "devices (snd (load_device net d True h)) = AList.update d js (devices h)"
    using api_request_devices [of net "''devices/'' @ d" "''GET''" h]
    by (auto simp: load_device_def split: prod.splits sum.splits)
  then show "map_of (devices (snd (load_device net d True h))) d = Some js"
    by (simp add: update_conv')
next
  fix e assume a: "fst (api_request net (''devices/'' @ d) ''GET'' h) = Inl e"
  then show "fst (load_device net d True h) = Inl e"
    by (auto simp: load_device_def split: prod.splits sum.splits)
  from a show "devices (snd (load_device net d True h)) = devices h"
    using api_request_devices [of net "''devices/'' @ d" "''GET''" h]
    by (auto simp: load_device_def split: prod.splits sum.splits)
qed

theorem load_device_cached_or_forced_witness:
  "''1922'' \<in> set (map fst (devices example_hub)) \<and>
   load_device (always (Resp 200 other_device)) ''1922'' False example_hub
     = (Inr (), example_hub) \<and>
   requests (snd (load_device (always (Resp 200 other_device)) ''1922'' True example_hub))
     = [\<lparr>rmethod = ''GET'', rurl = ''http://10.0.1.99/apps/api/1/devices/1922'',
          params = [(''access_token'', ''tok'')]\<rparr>] \<and>
   devices (snd (load_device (always (Resp 200 other_device)) ''1922'' True example_hub))
     = [(''1922'', other_device), (''2001'', other_device)] \<and>
   fst (load_device (always (Resp 401 JNull)) ''1922'' True example_hub) = Inl InvalidToken \<and>
   devices (snd (load_device (always (Resp 401 JNull)) ''1922'' True example_hub))
     = devices example_hub"
proof -
  have c: "''1922'' \<in> set (map fst (devices example_hub))"
    by (simp add: example_hub_def)
  have ok: "fst (api_request (always (Resp 200 other_device)) (''devices/'' @ ''1922'') ''GET''
                   example_hub) = Inr other_device"
    by (simp add: api_request_def always_def api_response_def other_device_def)
  have ko: "fst (api_request (always (Resp 401 JNull)) (''devices/'' @ ''1922'') ''GET''
                   example_hub) = Inl InvalidToken"
    by (simp add: api_request_def always_def api_response_def)
  have u: "AList.update ''1922'' other_device (devices example_hub)
             = [(''1922'', other_device), (''2001'', other_device)]"
    by (simp add: example_hub_def)
  have r: "requests example_hub = [] \<and> api_url example_hub = ''http://10.0.1.99/apps/api/1''
             \<and> token example_hub = ''tok''"
    by (simp add: example_hub_def)
  show ?thesis
    using c ok ko u r
      load_device_cached_or_forced [OF c, of "always (Resp 200 other_device)"]
      load_device_cached_or_forced [OF c, of "always (Resp 401 JNull)"]
    by simp
qed

section \<open>Constructing a hub\<close>

lemma take2_slashes: "take 2 u = ''//'' \<Longrightarrow> CHR ''/'' \<in> set u"
  by (cases u) auto

lemma bare_chars:
  assumes "bare_host u" and "c \<in> set u"
  shows "c \<noteq> CHR ''/''" and "c \<noteq> CHR ''?''" and "c \<noteq> CHR ''#''" and "c \<noteq> CHR '';''"
    and "(32::nat) < of_char c"
  using assms by (auto simp: bare_host_def list_all_iff)

lemma bare_dropWhile:
  assumes "bare_host u"
  shows "dropWhile c0_control_or_space u = u"
proof (cases u)
  case Nil
  then show ?thesis by simp
next
  case (Cons c cs)
  with bare_chars(5) [OF assms, of c] have "\<not> c0_control_or_space c"
    by (simp add: c0_control_or_space_def)
  with Cons show ?thesis by simp
qed

lemma bare_filter:
  assumes "bare_host u"
  shows "filter (\<lambda>c. \<not> unsafe_url_byte c) u = u"
proof -
  have "\<not> unsafe_url_byte c" if "c \<in> set u" for c
    using bare_chars(5) [OF assms that] by (auto simp: unsafe_url_byte_def)
  then show ?thesis by (simp add: filter_id_conv)
qed

lemma urlsplit_bare:
  assumes "bare_host u"
  shows "urlsplit lib u = Inr \<lparr>u_scheme = [], u_netloc = [], u_path = u, u_params = [],
                           u_query = [], u_fragment = []\<rparr>"
proof -
  from assms have ns: "has_scheme u = False"
    by (simp add: bare_host_def)
  have s: "(take 2 u = ''//'') = False"
    using bare_chars(1) [OF assms] take2_slashes [of u] by blast
  have h: "(CHR ''#'' \<in> set u) = False" and q: "(CHR ''?'' \<in> set u) = False"
    using bare_chars(2,3) [OF assms] by blast+
  show ?thesis
    by (simp add: urlsplit_def bare_dropWhile [OF assms] bare_filter [OF assms] ns s h q)
qed

lemma urlparse_bare:
  assumes "bare_host u"
  shows "urlparse lib u = Inr \<lparr>u_scheme = [], u_netloc = [], u_path = u, u_params = [],
                           u_query = [], u_fragment = []\<rparr>"
proof -
  have "(CHR '';'' \<in> set u) = False"
    using bare_chars(4) [OF assms] by blast
  then show ?thesis
    by (simp add: urlparse_def urlsplit_bare [OF assms])
qed

text \<open>
  Host names and dotted addresses are bare hosts: they have no colon, so the scheme test
  fails on them.
\<close>

lemma hostname_char_bare:
  "\<forall>c \<in> set hostname_chars. c \<noteq> CHR '':'' \<and> c \<notin> set ''/?#;'' \<and> (32::nat) < of_char c"
  by (simp add: hostname_chars_def ascii_lowercase_def ascii_uppercase_def)

lemma hostname_bare:
  assumes "list_all (\<lambda>c. c \<in> set hostname_chars) h"
  shows "bare_host h"
proof -
  from assms have a: "\<forall>c \<in> set h. c \<noteq> CHR '':'' \<and> c \<notin> set ''/?#;'' \<and> (32::nat) < of_char c"
    using hostname_char_bare by (auto simp: list_all_iff)
  then have "CHR '':'' \<notin> set h" by blast
  then have "\<not> has_scheme h" by (simp add: has_scheme_def)
  with a show ?thesis by (simp add: bare_host_def list_all_iff)
qed

text \<open>
  Where the parser finds no scheme and the host holds nothing but the host, the
  constructor does what its docstring says: with a non-empty application id and token it
  succeeds, the scheme is \<^verbatim>\<open>http\<close>, the host is the argument, and the base URL of the API
  is \<^verbatim>\<open>http://{host}/apps/api/{app_id}\<close>. Host names and dotted addresses are such hosts.
\<close>

lemma init_scheme_free_host:
  assumes "bare_host host_arg" and "host_arg \<noteq> []" and "app \<noteq> []" and "access_token \<noteq> []"
  shows "\<exists>h. init lib host_arg app access_token port_arg address_arg = Inr h \<and>
           scheme h = ''http'' \<and> host h = host_arg \<and>
           api_url h = ''http://'' @ host_arg @ ''/apps/api/'' @ app"
  using assms by (simp add: init_def urlparse_bare Let_def)

text \<open>Scenario A of the spec: the host \<^verbatim>\<open>10.0.1.99\<close>.\<close>

lemma init_scenario_a: "init lib ''10.0.1.99'' ''1'' ''tok'' None None = Inr fresh_hub"
proof -
  have "bare_host ''10.0.1.99''"
    by (simp add: bare_host_def has_scheme_def)
  then show ?thesis
    by (simp add: init_def urlparse_bare fresh_hub_def)
qed

text \<open>
  C7 fails on the code for a bare address that starts with a letter and holds a colon.
  The docstring of the constructor says that http is assumed when only a name or an
  address is given. For the address \<^verbatim>\<open>fe80::1\<close> the parser takes \<^verbatim>\<open>fe80\<close> for the scheme,
  so the constructor sets the scheme \<^verbatim>\<open>fe80\<close>, the host \<^verbatim>\<open>:1\<close> and the base URL
  \<^verbatim>\<open>fe80://:1/apps/api/1\<close>, whatever the library's validations accept.
\<close>

theorem init_raw_ipv6_address:
  "\<exists>h. init lib ''fe80::1'' ''1'' ''tok'' None None = Inr h \<and> scheme h = ''fe80'' \<and>
       host h = '':1'' \<and> api_url h = ''fe80://:1/apps/api/1'' \<and>
       api_url h \<noteq> ''http://fe80::1/apps/api/1''"
  by (simp add: init_def urlparse_def urlsplit_def has_scheme_def scheme_chars_def
      ascii_lowercase_def ascii_uppercase_def lower_char_def uses_params_def
      c0_control_or_space_def unsafe_url_byte_def Let_def)

text \<open>
  The same happens to a host name followed by a port: the parser reads the name as the
  scheme and the port as the path.
\<close>

lemma init_host_with_port:
  "\<exists>h. init lib ''hubitat:8080'' ''1'' ''tok'' None None = Inr h \<and> scheme h = ''hubitat'' \<and>
       host h = ''8080'' \<and> api_url h = ''hubitat://8080/apps/api/1''"
  by (simp add: init_def urlparse_def urlsplit_def has_scheme_def scheme_chars_def
      ascii_lowercase_def ascii_uppercase_def lower_char_def uses_params_def
      c0_control_or_space_def unsafe_url_byte_def Let_def)

text \<open>
  A bracketed host reaches the library's validation: what it refuses makes the
  constructor fail with \<open>ValueError\<close>.
\<close>

lemma init_bracketed_host_refused:
  assumes "\<not> check_bracketed_host lib ''zz''"
  shows "init lib ''http://[zz]'' ''1'' ''tok'' None None = Inl ValueError"
  using assms
  by (simp add: init_def urlparse_def urlsplit_def has_scheme_def scheme_chars_def
      ascii_lowercase_def ascii_uppercase_def lower_char_def splitnetloc_def
      bracketed_host_def c0_control_or_space_def unsafe_url_byte_def Let_def)

section \<open>Sending a command\<close>

text \<open>
  The path of a command: the argument is appended when it is given and truthy. The
  result is what the request layer returns for that path.
\<close>

lemma send_command_path:
  "send_command net device_id command arg h =
     api_request net
       (''devices/'' @ device_id @ ''/'' @ command @
          (case arg of
             None \<Rightarrow> []
           | Some a \<Rightarrow> if arg_truthy a then ''/'' @ format_arg a else []))
       ''GET'' h"
  by (simp add: send_command_def Let_def split: option.splits)

text \<open>
  C8 fails on the code for an argument that is given but falsy. \<^verbatim>\<open>if arg:\<close> tests the
  truth of the argument, not its presence: \<^verbatim>\<open>send_command("1922", "setLevel", 0)\<close>
  requests \<^verbatim>\<open>devices/1922/setLevel\<close>, without the argument, while the argument 50 is
  appended.
\<close>

theorem send_command_zero_arg:
  "requests (snd (send_command (always (Resp 200 (JObj []))) ''1922'' ''setLevel''
                    (Some (ArgInt 0)) example_hub))
     = [\<lparr>rmethod = ''GET'', rurl = ''http://10.0.1.99/apps/api/1/devices/1922/setLevel'',
          params = [(''access_token'', ''tok'')]\<rparr>] \<and>
   requests (snd (send_command (always (Resp 200 (JObj []))) ''1922'' ''setLevel''
                    (Some (ArgInt 50)) example_hub))
     = [\<lparr>rmethod = ''GET'', rurl = ''http://10.0.1.99/apps/api/1/devices/1922/setLevel/50'',
          params = [(''access_token'', ''tok'')]\<rparr>]"
  by (simp add: send_command_def api_request_def always_def example_hub_def Let_def
      str_of_int_def str_of_nat.simps)

section \<open>Stopping the hub\<close>

text \<open>
  Once \<^verbatim>\<open>start()\<close> has assigned the server, \<^verbatim>\<open>stop()\<close> succeeds, clears the listeners
  and marks the hub as not started.
\<close>

lemma stop_with_server:
  assumes "server h = Assigned s"
  shows "stop h = (Inr (), h\<lparr>server := Assigned (server_stop s), listeners := [],
                             started := False\<rparr>)"
  using assms by (simp add: stop_def)

lemma stop_without_server:
  assumes "server h = Unset"
  shows "stop h = (Inl (AttributeError ''_server''), h)"
  using assms by (simp add: stop_def)

lemma init_server_unset:
  "init lib host_arg app access_token port_arg address_arg = Inr h \<Longrightarrow> server h = Unset"
  by (auto simp: init_def Let_def split: if_splits sum.splits)

text \<open>
  C9 fails on the code for a hub that was constructed and never started. The
  constructor leaves \<^verbatim>\<open>_server\<close> unassigned, so \<^verbatim>\<open>stop()\<close> raises \<open>AttributeError\<close> on
  its first line, and the listener registered before is still registered afterwards.
\<close>

theorem stop_before_start:
  "init lib ''10.0.1.99'' ''1'' ''tok'' None None = Inr fresh_hub \<and>
   listeners (add_device_listener ''1922'' (Listener 3 None) fresh_hub)
     = [(''1922'', [Listener 3 None])] \<and>
   stop (add_device_listener ''1922'' (Listener 3 None) fresh_hub)
     = (Inl (AttributeError ''_server''),
        add_device_listener ''1922'' (Listener 3 None) fresh_hub)"
proof -
  have "bare_host ''10.0.1.99''"
    by (simp add: bare_host_def has_scheme_def)
  then have "init lib ''10.0.1.99'' ''1'' ''tok'' None None = Inr fresh_hub"
    by (simp add: init_def urlparse_bare fresh_hub_def)
  then show ?thesis
    by (simp add: stop_def add_device_listener_def fresh_hub_def Let_def)
qed

end
